theory Spec2Isabelle
  imports Complex_Main "HOL-Library.Word"
begin

chapter \<open>lifx-async: request engine, connection pool, effect conductor and frame effects\<close>

text \<open>
  A shallow embedding of the parts of the lifx-async client library that the properties
  below are about: the constructors and frame generators of the frame effects
  (\<^verbatim>\<open>lifx/effects/*.py\<close>), the frame loop (\<^verbatim>\<open>frame_effect.py\<close>), the conductor
  (\<^verbatim>\<open>conductor.py\<close>) and the per-device connection with its pool
  (\<^verbatim>\<open>network/connection.py\<close>).

  Conventions. A Python \<^verbatim>\<open>int\<close> is an \<^typ>\<open>int\<close>. A Python \<^verbatim>\<open>float\<close> is
  idealised as a \<^typ>\<open>real\<close>: rounding error, infinities and NaN are outside the model.
  Every \<^verbatim>\<open>raise\<close> is a value \<open>Inl e\<close> of a sum type. Objects that are mutated through
  shared references live in explicit stores, and the environment (the clock, the network,
  the devices) is an explicit argument.
\<close>

section \<open>Python values and arithmetic\<close>

datatype py_error =
    ValueError | IndexError | KeyError | ZeroDivisionError | TypeError
  | LifxConnectionError | LifxProtocolError | LifxTimeoutError | LifxUnsupportedCommandError
  | DeviceError


text \<open>\<^verbatim>\<open>int(x)\<close> on a float truncates towards zero.\<close>

definition py_int :: "real \<Rightarrow> int" where
  "py_int x = (if 0 \<le> x then \<lfloor>x\<rfloor> else \<lceil>x\<rceil>)"


text \<open>\<^verbatim>\<open>range(n)\<close>: empty for \<open>n \<le> 0\<close>.\<close>

definition py_range :: "int \<Rightarrow> int list" where
  "py_range n = [0..n - 1]"




section \<open>Colours and frame contexts\<close>

text \<open>
  Modelled from the spec: \<^verbatim>\<open>lifx.color.HSBK\<close> is not among the sources. The spec gives
  a colour as the four fields hue (degrees), saturation, brightness and kelvin;
  constructing one is record construction here.
\<close>

record HSBK =
  hue :: int
  saturation :: real
  brightness :: real
  kelvin :: int


section \<open>Constructors of the frame effects\<close>

text \<open>\<^verbatim>\<open>FrameEffect.__init__\<close>: the base initialiser stores \<open>power_on\<close>, then \<open>fps\<close> and
  \<open>duration\<close> are checked.\<close>

record FrameEffect =
  power_on :: bool
  fps :: real
  duration :: "real option"

definition FrameEffect_init :: "bool \<Rightarrow> real \<Rightarrow> real option \<Rightarrow> py_error + FrameEffect" where
  "FrameEffect_init po fps_arg duration_arg =
     (if fps_arg \<le> 0 then Inl ValueError
      else if (case duration_arg of None \<Rightarrow> False | Some d \<Rightarrow> d \<le> 0) then Inl ValueError
      else Inr \<lparr>power_on = po, fps = fps_arg, duration = duration_arg\<rparr>)"

text \<open>A subclass runs its own checks, then \<^verbatim>\<open>super().__init__\<close>, then stores its
  fields: \<open>subclass_init base more\<close> extends the base object with them.\<close>

definition subclass_init ::
  "py_error + FrameEffect \<Rightarrow> 'a \<Rightarrow> py_error + 'a FrameEffect_scheme" where
  "subclass_init base flds =
     (case base of Inl e \<Rightarrow> Inl e | Inr b \<Rightarrow> Inr (FrameEffect.extend b flds))"

record EffectRainbow = FrameEffect +
  rainbow_period :: real
  rainbow_brightness :: real
  rainbow_saturation :: real
  rainbow_spread :: real

definition EffectRainbow_init ::
  "bool \<Rightarrow> real \<Rightarrow> real \<Rightarrow> real \<Rightarrow> real \<Rightarrow> py_error + EffectRainbow" where
  "EffectRainbow_init po period b s spread =
     (if period \<le> 0 then Inl ValueError
      else if \<not> (0 \<le> b \<and> b \<le> 1) then Inl ValueError
      else if \<not> (0 \<le> s \<and> s \<le> 1) then Inl ValueError
      else if \<not> (0 \<le> spread \<and> spread \<le> 360) then Inl ValueError
      else subclass_init (FrameEffect_init po 20 None)
             (EffectRainbow.fields period b s spread))"

text \<open>\<^verbatim>\<open>MIN_KELVIN\<close> and \<^verbatim>\<open>MAX_KELVIN\<close> come from \<^verbatim>\<open>lifx.const\<close>, which is not among
  the sources: they are parameters.\<close>

record EffectFlame = FrameEffect +
  flame_intensity :: real
  flame_speed :: real
  flame_kelvin_min :: int
  flame_kelvin_max :: int
  flame_brightness :: real

definition EffectFlame_init ::
  "int \<Rightarrow> int \<Rightarrow> bool \<Rightarrow> real \<Rightarrow> real \<Rightarrow> int \<Rightarrow> int \<Rightarrow> real \<Rightarrow> py_error + EffectFlame" where
  "EffectFlame_init MIN_KELVIN MAX_KELVIN po intensity speed kelvin_min kelvin_max b =
     (if \<not> (0 \<le> intensity \<and> intensity \<le> 1) then Inl ValueError
      else if speed \<le> 0 then Inl ValueError
      else if kelvin_min < MIN_KELVIN then Inl ValueError
      else if kelvin_max > MAX_KELVIN then Inl ValueError
      else if kelvin_min > kelvin_max then Inl ValueError
      else if \<not> (0 \<le> b \<and> b \<le> 1) then Inl ValueError
      else subclass_init (FrameEffect_init po 20 None)
             (EffectFlame.fields intensity speed kelvin_min kelvin_max b))"

text \<open>The default palette of the aurora, \<^verbatim>\<open>_DEFAULT_PALETTE\<close>.\<close>

definition DEFAULT_PALETTE :: "int list" where
  "DEFAULT_PALETTE = [120, 160, 200, 260, 290]"

record EffectAurora = FrameEffect +
  aurora_speed :: real
  aurora_brightness :: real
  aurora_palette :: "int list"
  aurora_spread :: real

definition EffectAurora_init ::
  "bool \<Rightarrow> real \<Rightarrow> real \<Rightarrow> int list option \<Rightarrow> real \<Rightarrow> py_error + EffectAurora" where
  "EffectAurora_init po speed b palette spread =
     (if speed \<le> 0 then Inl ValueError
      else if \<not> (0 \<le> b \<and> b \<le> 1) then Inl ValueError
      else if \<not> (0 \<le> spread \<and> spread \<le> 360) then Inl ValueError
      else if (case palette of None \<Rightarrow> False
               | Some p \<Rightarrow> length p < 2 \<or> (\<exists>h \<in> set p. \<not> (0 \<le> h \<and> h \<le> 360)))
        then Inl ValueError
      else subclass_init (FrameEffect_init po 20 None)
             (EffectAurora.fields speed b
                (case palette of None \<Rightarrow> DEFAULT_PALETTE | Some p \<Rightarrow> p) spread))"







text \<open>Sunrise and sunset share their fields but for \<open>power_off\<close>; the origin is a string
  checked against \<^verbatim>\<open>_VALID_ORIGINS\<close>.\<close>

definition VALID_ORIGINS :: "string list" where
  "VALID_ORIGINS = [''bottom'', ''center'']"

record EffectSunrise = FrameEffect +
  sunrise_brightness :: real
  sunrise_origin :: string

definition EffectSunrise_init ::
  "bool \<Rightarrow> real \<Rightarrow> real \<Rightarrow> string \<Rightarrow> py_error + EffectSunrise" where
  "EffectSunrise_init po dur b origin =
     (if dur \<le> 0 then Inl ValueError
      else if \<not> (0 \<le> b \<and> b \<le> 1) then Inl ValueError
      else if origin \<notin> set VALID_ORIGINS then Inl ValueError
      else subclass_init (FrameEffect_init po 20 (Some dur)) (EffectSunrise.fields b origin))"

record EffectSunset = FrameEffect +
  sunset_brightness :: real
  sunset_power_off :: bool
  sunset_origin :: string

definition EffectSunset_init ::
  "bool \<Rightarrow> real \<Rightarrow> real \<Rightarrow> bool \<Rightarrow> string \<Rightarrow> py_error + EffectSunset" where
  "EffectSunset_init po dur b power_off origin =
     (if dur \<le> 0 then Inl ValueError
      else if \<not> (0 \<le> b \<and> b \<le> 1) then Inl ValueError
      else if origin \<notin> set VALID_ORIGINS then Inl ValueError
      else subclass_init (FrameEffect_init po 20 (Some dur))
             (EffectSunset.fields b power_off origin))"

section \<open>The per-device connection\<close>

text \<open>
  Of a parsed header the request engine reads the sequence number and the packet type.
  Modelled from the spec: \<^verbatim>\<open>LifxHeader\<close> and \<^verbatim>\<open>MessageBuilder\<close> are not among the
  sources; the spec gives the sequence as an 8-bit counter per connection that wraps, so
  it is an \<^typ>\<open>8 word\<close> here and \<^verbatim>\<open>next_sequence()\<close> hands out the counter and advances
  it by one.
\<close>

record LifxHeader =
  sequence :: "8 word"
  pkt_type :: nat

type_synonym payload = "8 word list"

definition STATE_UNHANDLED_PKT_TYPE :: nat where
  "STATE_UNHANDLED_PKT_TYPE = 223"

record ActualConnection =
  conn_serial :: string
  conn_ip :: string
  conn_max_retries :: int
  default_timeout :: real
  is_open :: bool
  has_transport :: bool
  next_sequence :: "8 word"

text \<open>\<^verbatim>\<open>_ActualConnection.__init__\<close>, \<^verbatim>\<open>open\<close> and \<^verbatim>\<open>close\<close>.\<close>

definition ActualConnection_init :: "string \<Rightarrow> string \<Rightarrow> int \<Rightarrow> real \<Rightarrow> 8 word \<Rightarrow> ActualConnection" where
  "ActualConnection_init serial ip max_retries timeout first_sequence =
     \<lparr>conn_serial = serial, conn_ip = ip, conn_max_retries = max_retries,
      default_timeout = timeout, is_open = False, has_transport = False,
      next_sequence = first_sequence\<rparr>"

definition conn_open :: "ActualConnection \<Rightarrow> ActualConnection" where
  "conn_open self = (if is_open self then self else self\<lparr>has_transport := True, is_open := True\<rparr>)"

definition conn_close :: "ActualConnection \<Rightarrow> ActualConnection" where
  "conn_close self =
     (if \<not> is_open self then self else self\<lparr>is_open := False, has_transport := False\<rparr>)"

subsection \<open>The retry schedule\<close>

text \<open>\<^verbatim>\<open>2 ** k\<close> for an int \<open>k\<close>: an int for \<open>k \<ge> 0\<close>, a float below one otherwise.\<close>

definition py_pow2 :: "int \<Rightarrow> real" where
  "py_pow2 k = (if 0 \<le> k then 2 ^ nat k else 1 / 2 ^ nat (- k))"

definition total_weight :: "int \<Rightarrow> real" where
  "total_weight max_retries = py_pow2 (max_retries + 1) - 1"

definition base_timeout :: "real \<Rightarrow> int \<Rightarrow> py_error + real" where
  "base_timeout timeout max_retries =
     (if total_weight max_retries = 0 then Inl ZeroDivisionError
      else Inr (timeout / total_weight max_retries))"

definition current_timeout :: "real \<Rightarrow> nat \<Rightarrow> real" where
  "current_timeout base attempt = base * 2 ^ attempt"

subsection \<open>What the environment does during a request\<close>

text \<open>
  One pass through the body of the polling loop (\<^verbatim>\<open>while True\<close>) reads the clock and
  then waits for a datagram. The environment decides both, so a run of the loop is driven
  by a list of observations, one per pass:
  \<^item> \<open>Expired\<close>: at the top of the loop \<^verbatim>\<open>remaining_time <= 0\<close>;
  \<^item> \<open>Idle late\<close>: there was time left and \<^verbatim>\<open>receive_packet\<close> raised
    \<^verbatim>\<open>LifxTimeoutError\<close>; \<open>late\<close> tells whether \<^verbatim>\<open>time.monotonic() >= attempt_deadline\<close>
    afterwards;
  \<^item> \<open>Recv header payload\<close>: there was time left and \<^verbatim>\<open>receive_packet\<close> returned.

  How long a receive waits (\<^verbatim>\<open>min(_DEFAULT_IDLE_TIMEOUT, remaining_time)\<close>) and how long
  the sleep between two attempts lasts (\<^verbatim>\<open>random.uniform\<close> up to
  \<^verbatim>\<open>_RETRY_SLEEP_BASE * 2 ** attempt\<close>) only move the clock; they are part of the
  environment.
\<close>

datatype poll = Expired | Idle bool | Recv LifxHeader payload

text \<open>How a generator ends: it returns, it raises, or the observations ran out while it
  was still polling.\<close>

datatype stream_end = Returned | Raised py_error | Suspended

text \<open>How one attempt ends: the builtin \<^verbatim>\<open>TimeoutError\<close> that the retry handler catches
  (the observations left over go to the next attempt), or the end of the generator.\<close>

datatype loop_exit = TimeoutError "poll list" | Finished stream_end

record 'a stream_result =
  yielded :: "'a list"
  finish :: stream_end
  attempts :: "(8 word \<times> real) list"

subsection \<open>\<^verbatim>\<open>request_stream\<close>\<close>

text \<open>The polling loop of one attempt. It returns what it yielded, the flag
  \<open>has_yielded\<close> and how the attempt ended.\<close>

fun response_loop ::
  "8 word \<Rightarrow> nat option \<Rightarrow> bool \<Rightarrow> poll list
     \<Rightarrow> (LifxHeader \<times> payload) list \<times> bool \<times> loop_exit" where
  "response_loop seq expected has_yielded [] = ([], has_yielded, Finished Suspended)"
| "response_loop seq expected has_yielded (Expired # evs) =
     (if \<not> has_yielded then ([], has_yielded, TimeoutError evs)
      else ([], has_yielded, Finished Returned))"
| "response_loop seq expected has_yielded (Idle late # evs) =
     (if has_yielded then response_loop seq expected has_yielded evs
      else if late then ([], has_yielded, TimeoutError evs)
      else response_loop seq expected has_yielded evs)"
| "response_loop seq expected has_yielded (Recv header pl # evs) =
     (if sequence header \<noteq> seq then response_loop seq expected has_yielded evs
      else if pkt_type header = STATE_UNHANDLED_PKT_TYPE
        then ([], has_yielded, Finished (Raised LifxUnsupportedCommandError))
      else if (case expected of None \<Rightarrow> False | Some t \<Rightarrow> pkt_type header \<noteq> t)
        then ([], has_yielded, Finished (Raised LifxProtocolError))
      else (case response_loop seq expected True evs of
              (ys, hy, ex) \<Rightarrow> ((header, pl) # ys, hy, ex)))"

text \<open>The \<^verbatim>\<open>for attempt in range(max_retries + 1)\<close> loop with its handler for
  \<^verbatim>\<open>TimeoutError\<close>, and the code after the loop. Each attempt takes a fresh sequence
  number and is logged with its timeout.\<close>

definition log_attempt ::
  "8 word \<times> real \<Rightarrow> 'a list \<Rightarrow> 'a stream_result \<Rightarrow> 'a stream_result" where
  "log_attempt a ys r = r\<lparr>yielded := ys @ yielded r, attempts := a # attempts r\<rparr>"

fun request_attempts ::
  "nat option \<Rightarrow> real \<Rightarrow> int \<Rightarrow> nat list \<Rightarrow> 8 word \<Rightarrow> bool \<Rightarrow> poll list
     \<Rightarrow> (LifxHeader \<times> payload) stream_result \<times> 8 word" where
  "request_attempts expected base max_retries [] seq has_yielded evs =
     (\<lparr>yielded = [], finish = (if \<not> has_yielded then Raised LifxTimeoutError else Returned),
       attempts = []\<rparr>, seq)"
| "request_attempts expected base max_retries (attempt # rest) seq has_yielded evs =
     (case response_loop seq expected has_yielded evs of
        (ys, hy, TimeoutError evs') \<Rightarrow>
          if int attempt < max_retries
          then (case request_attempts expected base max_retries rest (seq + 1) hy evs' of
                  (r, seq') \<Rightarrow> (log_attempt (seq, current_timeout base attempt) ys r, seq'))
          else (\<lparr>yielded = ys,
                 finish = (if \<not> hy then Raised LifxTimeoutError else Returned),
                 attempts = [(seq, current_timeout base attempt)]\<rparr>, seq + 1)
      | (ys, hy, Finished e) \<Rightarrow>
          (\<lparr>yielded = ys, finish = e, attempts = [(seq, current_timeout base attempt)]\<rparr>,
           seq + 1))"

text \<open>\<^verbatim>\<open>_ActualConnection.request_stream\<close>. \<open>STATE_TYPE\<close> is the response type the
  request packet declares, if any. The result holds everything a caller that keeps
  iterating receives, and the connection with its sequence counter advanced.\<close>

definition failed :: "py_error \<Rightarrow> 'a stream_result" where
  "failed e = \<lparr>yielded = [], finish = Raised e, attempts = []\<rparr>"

definition request_stream ::
  "ActualConnection \<Rightarrow> nat option \<Rightarrow> real option \<Rightarrow> int option \<Rightarrow> poll list
     \<Rightarrow> (LifxHeader \<times> payload) stream_result \<times> ActualConnection" where
  "request_stream self STATE_TYPE timeout_arg max_retries_arg evs =
     (if \<not> is_open self \<or> \<not> has_transport self then (failed LifxConnectionError, self)
      else
        let timeout = (case timeout_arg of None \<Rightarrow> default_timeout self | Some t \<Rightarrow> t);
            max_retries = (case max_retries_arg of None \<Rightarrow> conn_max_retries self | Some r \<Rightarrow> r)
        in case base_timeout timeout max_retries of
             Inl e \<Rightarrow> (failed e, self)
           | Inr base \<Rightarrow>
               (case request_attempts STATE_TYPE base max_retries
                       (map nat (py_range (max_retries + 1))) (next_sequence self) False evs of
                  (r, seq') \<Rightarrow> (r, self\<lparr>next_sequence := seq'\<rparr>)))"

subsection \<open>\<^verbatim>\<open>request_ack_stream\<close>\<close>

text \<open>The polling loop of one attempt: any packet with the attempt's sequence number
  is the acknowledgement, which is yielded once before the generator returns.\<close>

fun ack_loop :: "8 word \<Rightarrow> poll list \<Rightarrow> unit list \<times> loop_exit" where
  "ack_loop seq [] = ([], Finished Suspended)"
| "ack_loop seq (Expired # evs) = ([], TimeoutError evs)"
| "ack_loop seq (Idle late # evs) = (if late then ([], TimeoutError evs) else ack_loop seq evs)"
| "ack_loop seq (Recv header pl # evs) =
     (if sequence header \<noteq> seq then ack_loop seq evs
      else if pkt_type header = STATE_UNHANDLED_PKT_TYPE
        then ([], Finished (Raised LifxUnsupportedCommandError))
      else ([()], Finished Returned))"

fun ack_attempts ::
  "real \<Rightarrow> int \<Rightarrow> nat list \<Rightarrow> 8 word \<Rightarrow> poll list \<Rightarrow> unit stream_result \<times> 8 word" where
  "ack_attempts base max_retries [] seq evs = (failed LifxTimeoutError, seq)"
| "ack_attempts base max_retries (attempt # rest) seq evs =
     (case ack_loop seq evs of
        (ys, TimeoutError evs') \<Rightarrow>
          if int attempt < max_retries
          then (case ack_attempts base max_retries rest (seq + 1) evs' of
                  (r, seq') \<Rightarrow> (log_attempt (seq, current_timeout base attempt) ys r, seq'))
          else (\<lparr>yielded = ys, finish = Raised LifxTimeoutError,
                 attempts = [(seq, current_timeout base attempt)]\<rparr>, seq + 1)
      | (ys, Finished e) \<Rightarrow>
          (\<lparr>yielded = ys, finish = e, attempts = [(seq, current_timeout base attempt)]\<rparr>,
           seq + 1))"

definition request_ack_stream ::
  "ActualConnection \<Rightarrow> real option \<Rightarrow> int option \<Rightarrow> poll list
     \<Rightarrow> unit stream_result \<times> ActualConnection" where
  "request_ack_stream self timeout_arg max_retries_arg evs =
     (if \<not> is_open self \<or> \<not> has_transport self then (failed LifxConnectionError, self)
      else
        let timeout = (case timeout_arg of None \<Rightarrow> default_timeout self | Some t \<Rightarrow> t);
            max_retries = (case max_retries_arg of None \<Rightarrow> conn_max_retries self | Some r \<Rightarrow> r)
        in case base_timeout timeout max_retries of
             Inl e \<Rightarrow> (failed e, self)
           | Inr base \<Rightarrow>
               (case ack_attempts base max_retries
                       (map nat (py_range (max_retries + 1))) (next_sequence self) evs of
                  (r, seq') \<Rightarrow> (r, self\<lparr>next_sequence := seq'\<rparr>)))"

subsection \<open>Attempts in which nothing answers\<close>

text \<open>An observation that neither answers the request with sequence number \<open>seq\<close> nor
  ends the attempt: an idle poll before the deadline, or a packet with another sequence
  number.\<close>

fun unanswered :: "8 word \<Rightarrow> poll \<Rightarrow> bool" where
  "unanswered seq Expired = False"
| "unanswered seq (Idle late) = (\<not> late)"
| "unanswered seq (Recv header pl) = (sequence header \<noteq> seq)"

text \<open>The observation with which the deadline of an attempt is noticed.\<close>

fun deadline :: "poll \<Rightarrow> bool" where
  "deadline Expired = True"
| "deadline (Idle late) = late"
| "deadline (Recv header pl) = False"



section \<open>The connection pool\<close>

record ConnectionPoolMetrics =
  hits :: int
  misses :: int
  evictions :: int
  total_requests :: int
  eviction_times_ms :: "real list"

definition ConnectionPoolMetrics_init :: ConnectionPoolMetrics where
  "ConnectionPoolMetrics_init =
     \<lparr>hits = 0, misses = 0, evictions = 0, total_requests = 0, eviction_times_ms = []\<rparr>"

subsection \<open>\<^verbatim>\<open>OrderedDict\<close>\<close>

text \<open>An \<^verbatim>\<open>OrderedDict\<close> is the list of its items, the oldest first. Assigning to a key
  that is present keeps its place, assigning to a new key appends it.\<close>

fun od_set :: "'k \<Rightarrow> 'v \<Rightarrow> ('k \<times> 'v) list \<Rightarrow> ('k \<times> 'v) list" where
  "od_set k v [] = [(k, v)]"
| "od_set k v (item # items) =
     (if fst item = k then (k, v) # items else item # od_set k v items)"

text \<open>\<^verbatim>\<open>move_to_end(k)\<close> raises \<^verbatim>\<open>KeyError\<close> for a key that is absent.\<close>

definition od_move_to_end :: "'k \<Rightarrow> ('k \<times> 'v) list \<Rightarrow> py_error + ('k \<times> 'v) list" where
  "od_move_to_end k items =
     (case map_of items k of
        None \<Rightarrow> Inl KeyError
      | Some v \<Rightarrow> Inr (filter (\<lambda>item. fst item \<noteq> k) items @ [(k, v)]))"

text \<open>\<^verbatim>\<open>popitem(last=False)\<close> takes the oldest item and raises \<^verbatim>\<open>KeyError\<close> on an empty
  dictionary.\<close>

definition od_popitem_first :: "('k \<times> 'v) list \<Rightarrow> py_error + (('k \<times> 'v) \<times> ('k \<times> 'v) list)" where
  "od_popitem_first items =
     (case items of [] \<Rightarrow> Inl KeyError | item # others \<Rightarrow> Inr (item, others))"

subsection \<open>The pool\<close>

text \<open>
  The pool holds references to connection objects: a reference is an index into the heap
  of all connections created so far, so that closing an evicted connection is visible to
  whoever still holds it. Each entry is \<open>serial \<mapsto> (connection, last use)\<close>.
\<close>

type_synonym conn_ref = nat
type_synonym heap = "ActualConnection list"

record ConnectionPool =
  max_connections :: int
  connections :: "(string \<times> conn_ref \<times> real) list"
  metrics :: ConnectionPoolMetrics

definition ConnectionPool_init :: "int \<Rightarrow> ConnectionPool" where
  "ConnectionPool_init n =
     \<lparr>max_connections = n, connections = [], metrics = ConnectionPoolMetrics_init\<rparr>"

text \<open>What a call of \<^verbatim>\<open>get_connection\<close> is given, and what it reads from its
  environment: \<^verbatim>\<open>time.time()\<close>, the time an eviction took, and the first sequence number
  of a connection it creates.\<close>

record pool_request =
  req_serial :: string
  req_ip :: string
  req_max_retries :: int
  req_timeout :: real
  now :: real
  eviction_time_ms :: real
  first_sequence :: "8 word"

text \<open>Updaters for the heap and the counters.\<close>

definition heap_update :: "conn_ref \<Rightarrow> (ActualConnection \<Rightarrow> ActualConnection) \<Rightarrow> heap \<Rightarrow> heap" where
  "heap_update r f h = (if r < length h then h[r := f (h ! r)] else h)"

definition count_request :: "ConnectionPoolMetrics \<Rightarrow> ConnectionPoolMetrics" where
  "count_request m = m\<lparr>total_requests := total_requests m + 1\<rparr>"

definition count_hit :: "ConnectionPoolMetrics \<Rightarrow> ConnectionPoolMetrics" where
  "count_hit m = m\<lparr>hits := hits m + 1\<rparr>"

definition count_miss :: "ConnectionPoolMetrics \<Rightarrow> ConnectionPoolMetrics" where
  "count_miss m = m\<lparr>misses := misses m + 1\<rparr>"

definition count_eviction :: "real \<Rightarrow> ConnectionPoolMetrics \<Rightarrow> ConnectionPoolMetrics" where
  "count_eviction ms m =
     m\<lparr>evictions := evictions m + 1, eviction_times_ms := eviction_times_ms m @ [ms]\<rparr>"

text \<open>The test \<^verbatim>\<open>serial in self.connections\<close> followed by \<^verbatim>\<open>conn.is_open\<close>: the
  reference of the pooled connection when it is open.\<close>

definition pooled_open :: "ConnectionPool \<Rightarrow> heap \<Rightarrow> string \<Rightarrow> conn_ref option" where
  "pooled_open self h serial =
     (case map_of (connections self) serial of
        None \<Rightarrow> None
      | Some (conn, last_use) \<Rightarrow> if conn < length h \<and> is_open (h ! conn) then Some conn else None)"

text \<open>\<^verbatim>\<open>ConnectionPool.get_connection\<close>. It returns the connection, or the exception
  it raised, together with the pool and the heap as it left them.\<close>

definition get_connection ::
  "ConnectionPool \<Rightarrow> heap \<Rightarrow> pool_request \<Rightarrow> (py_error + conn_ref) \<times> ConnectionPool \<times> heap" where
  "get_connection self h rq =
     (let self = self\<lparr>metrics := count_request (metrics self)\<rparr> in
      case pooled_open self h (req_serial rq) of
        Some conn \<Rightarrow>
          (case od_move_to_end (req_serial rq) (connections self) of
             Inl e \<Rightarrow> (Inl e, self\<lparr>metrics := count_hit (metrics self)\<rparr>, h)
           | Inr moved \<Rightarrow>
               (Inr conn,
                self\<lparr>metrics := count_hit (metrics self),
                     connections := od_set (req_serial rq) (conn, now rq) moved\<rparr>,
                h))
      | None \<Rightarrow>
          let self = self\<lparr>metrics := count_miss (metrics self)\<rparr>;
              conn = length h;
              h = h @ [conn_open (ActualConnection_init (req_serial rq) (req_ip rq)
                                    (req_max_retries rq) (req_timeout rq) (first_sequence rq))]
          in if int (length (connections self)) \<ge> max_connections self
             then (case od_popitem_first (connections self) of
                     Inl e \<Rightarrow> (Inl e, self, h)
                   | Inr ((lru_serial, old_conn, last_use), others) \<Rightarrow>
                       (Inr conn,
                        self\<lparr>metrics := count_eviction (eviction_time_ms rq) (metrics self),
                             connections := od_set (req_serial rq) (conn, now rq) others\<rparr>,
                        heap_update old_conn conn_close h))
             else (Inr conn,
                   self\<lparr>connections := od_set (req_serial rq) (conn, now rq) (connections self)\<rparr>,
                   h))"

text \<open>A sequence of calls, each on the pool and the heap the one before left; a call
  that raised leaves them as they were when it raised.\<close>

fun get_connections :: "ConnectionPool \<times> heap \<Rightarrow> pool_request list \<Rightarrow> ConnectionPool \<times> heap" where
  "get_connections state [] = state"
| "get_connections (self, h) (rq # rqs) = get_connections (snd (get_connection self h rq)) rqs"

text \<open>A request for a serial, with the other arguments fixed.\<close>

definition request_for :: "string \<Rightarrow> pool_request" where
  "request_for serial =
     \<lparr>req_serial = serial, req_ip = ''192.168.1.100'', req_max_retries = 8, req_timeout = 8,
      now = 0, eviction_time_ms = 0, first_sequence = 0\<rparr>"

section \<open>The conductor\<close>

text \<open>
  Modelled from the spec: the device classes, \<^verbatim>\<open>PreState\<close>, \<^verbatim>\<open>RunningEffect\<close> and the
  \<^verbatim>\<open>Animator\<close> are not among the sources. Of a light the conductor reads the serial and
  whether it is a matrix or a multizone device; a pre-state is power, colour and the
  optional zone colours; a running effect is \<open>{effect, prestate, task}\<close>.
\<close>

datatype device_kind = SingleLight | MultiZoneLight | MatrixLight

record Light =
  light_serial :: string
  light_kind :: device_kind

record PreState =
  prestate_power :: bool
  prestate_color :: HSBK
  zone_colors :: "HSBK list option"

record Animator =
  animator_serial :: string
  animator_kind :: device_kind
  duration_ms :: int

text \<open>Effects and tasks are objects that the conductor, the running map and the caller
  share: an effect is referred to by its identity (\<^verbatim>\<open>running.effect is effect\<close>), and
  its participants and animators are lists mutated in place.\<close>

type_synonym effect_ref = nat
type_synonym task_ref = nat

record effect_object =
  is_frame_effect :: bool
  effect_fps :: real
  participants :: "Light list"
  animators :: "Animator list"

datatype task_state = Pending | Cancelled | Done

record RunningEffect =
  effect :: effect_ref
  prestate :: PreState
  task :: task_ref

record Conductor =
  running :: "(string \<times> RunningEffect) list"
  effects :: "effect_ref \<Rightarrow> effect_object"
  tasks :: "task_state list"

text \<open>What the conductor asks of the effect, the state manager and the devices:
  \<^verbatim>\<open>effect.is_light_compatible(light)\<close>, \<^verbatim>\<open>effect.inherit_prestate(other)\<close>,
  \<^verbatim>\<open>capture_state(light)\<close> and \<^verbatim>\<open>restore_state(light, prestate)\<close>; the last two talk to
  the device and may raise.\<close>

record environment =
  is_light_compatible :: "effect_ref \<Rightarrow> Light \<Rightarrow> bool"
  inherit_prestate :: "effect_ref \<Rightarrow> effect_ref \<Rightarrow> bool"
  capture_state :: "Light \<Rightarrow> py_error + PreState"
  restore_state :: "Light \<Rightarrow> PreState \<Rightarrow> py_error option"

subsection \<open>Dictionaries and gathered calls\<close>

text \<open>\<^verbatim>\<open>del d[k]\<close> for a key that is present, guarded by \<^verbatim>\<open>if k in d\<close>.\<close>

definition dict_del :: "'k \<Rightarrow> ('k \<times> 'v) list \<Rightarrow> ('k \<times> 'v) list" where
  "dict_del k items = filter (\<lambda>item. fst item \<noteq> k) items"

text \<open>\<^verbatim>\<open>dict(zip(keys, values))\<close>: a later value for the same key replaces the earlier
  one.\<close>

definition dict_of :: "('k \<times> 'v) list \<Rightarrow> ('k \<times> 'v) list" where
  "dict_of kvs = foldl (\<lambda>d kv. od_set (fst kv) (snd kv) d) [] kvs"

text \<open>\<^verbatim>\<open>await asyncio.gather(...)\<close> of calls that return a value: all the results in
  order, or the exception of the first call that raised.\<close>

fun gather :: "('a \<Rightarrow> py_error + 'b) \<Rightarrow> 'a list \<Rightarrow> py_error + 'b list" where
  "gather f [] = Inr []"
| "gather f (x # xs) =
     (case f x of
        Inl e \<Rightarrow> Inl e
      | Inr y \<Rightarrow> (case gather f xs of Inl e \<Rightarrow> Inl e | Inr ys \<Rightarrow> Inr (y # ys)))"

text \<open>The same for calls that return nothing.\<close>

fun gather_unit :: "('a \<Rightarrow> py_error option) \<Rightarrow> 'a list \<Rightarrow> py_error option" where
  "gather_unit f [] = None"
| "gather_unit f (x # xs) = (case f x of Some e \<Rightarrow> Some e | None \<Rightarrow> gather_unit f xs)"

subsection \<open>\<^verbatim>\<open>effect\<close>, \<^verbatim>\<open>_filter_compatible_lights\<close> and \<^verbatim>\<open>_create_animators\<close>\<close>

definition Conductor_effect :: "Conductor \<Rightarrow> Light \<Rightarrow> effect_ref option" where
  "Conductor_effect self light =
     (case map_of (running self) (light_serial light) of
        None \<Rightarrow> None
      | Some r \<Rightarrow> Some (effect r))"

definition filter_compatible_lights :: "environment \<Rightarrow> effect_ref \<Rightarrow> Light list \<Rightarrow> Light list" where
  "filter_compatible_lights env e lights = filter (is_light_compatible env e) lights"

definition create_animators :: "effect_object \<Rightarrow> Light list \<Rightarrow> py_error + Animator list" where
  "create_animators eff lights =
     (if effect_fps eff = 0 then Inl ZeroDivisionError
      else Inr (map (\<lambda>light. \<lparr>animator_serial = light_serial light,
                              animator_kind = light_kind light,
                              duration_ms = py_int (1500 / effect_fps eff)\<rparr>) lights))"

subsection \<open>\<^verbatim>\<open>start\<close>\<close>

text \<open>The pre-state of each participant: inherited from the effect that runs on the
  light when the new effect accepts it, captured from the device otherwise. The captured
  ones are stored after the inherited ones.\<close>

definition inherits :: "environment \<Rightarrow> Conductor \<Rightarrow> effect_ref \<Rightarrow> Light \<Rightarrow> bool" where
  "inherits env self e light =
     (case map_of (running self) (light_serial light) of
        None \<Rightarrow> False
      | Some current \<Rightarrow> inherit_prestate env e (effect current))"

definition inherited_prestates ::
  "environment \<Rightarrow> Conductor \<Rightarrow> effect_ref \<Rightarrow> Light list \<Rightarrow> (string \<times> PreState) list" where
  "inherited_prestates env self e lights =
     concat (map (\<lambda>light. case map_of (running self) (light_serial light) of
                             None \<Rightarrow> []
                           | Some current \<Rightarrow>
                               if inherit_prestate env e (effect current)
                               then [(light_serial light, prestate current)] else []) lights)"

definition start_prestates ::
  "environment \<Rightarrow> Conductor \<Rightarrow> effect_ref \<Rightarrow> Light list \<Rightarrow> py_error + (string \<times> PreState) list" where
  "start_prestates env self e lights =
     (let needing_capture = filter (\<lambda>light. \<not> inherits env self e light) lights
      in case gather (capture_state env) needing_capture of
           Inl err \<Rightarrow> Inl err
         | Inr captured \<Rightarrow>
             Inr (dict_of (inherited_prestates env self e lights
                           @ zip (map light_serial needing_capture) captured)))"

text \<open>Registering the effect for each light, in order, under one task;
  \<^verbatim>\<open>prestates[serial]\<close> raises \<^verbatim>\<open>KeyError\<close> for a serial that has no pre-state.\<close>

fun register ::
  "effect_ref \<Rightarrow> task_ref \<Rightarrow> (string \<times> PreState) list \<Rightarrow> Light list
     \<Rightarrow> (string \<times> RunningEffect) list \<Rightarrow> py_error + (string \<times> RunningEffect) list" where
  "register e t prestates [] run = Inr run"
| "register e t prestates (light # lights) run =
     (case map_of prestates (light_serial light) of
        None \<Rightarrow> Inl KeyError
      | Some pre \<Rightarrow>
          register e t prestates lights
            (od_set (light_serial light) \<lparr>effect = e, prestate = pre, task = t\<rparr> run))"

text \<open>\<^verbatim>\<open>Conductor.start\<close>. For a frame effect the participants and the animators are
  published on the effect before the task is created; \<^verbatim>\<open>async_setup\<close> is a hook of the
  effect that does not touch the conductor. A call that raises returns only its
  exception: the state it leaves behind is not modelled.\<close>

definition start ::
  "environment \<Rightarrow> Conductor \<Rightarrow> effect_ref \<Rightarrow> Light list \<Rightarrow> py_error + Conductor" where
  "start env self e lights =
     (let filtered = filter_compatible_lights env e lights in
      if filtered = [] then Inr self
      else case start_prestates env self e filtered of
        Inl err \<Rightarrow> Inl err
      | Inr prestates \<Rightarrow>
          (case (if is_frame_effect (effects self e)
                 then (case create_animators (effects self e) filtered of
                         Inl err \<Rightarrow> Inl err
                       | Inr anims \<Rightarrow>
                           Inr ((effects self)
                                  (e := (effects self e)\<lparr>participants := filtered,
                                                         animators := anims\<rparr>)))
                 else Inr (effects self)) of
             Inl err \<Rightarrow> Inl err
           | Inr effs \<Rightarrow>
               (case register e (length (tasks self)) prestates filtered (running self) of
                  Inl err \<Rightarrow> Inl err
                | Inr run \<Rightarrow>
                    Inr (self\<lparr>effects := effs, tasks := tasks self @ [Pending],
                              running := run\<rparr>))))"

subsection \<open>\<^verbatim>\<open>stop\<close>\<close>

text \<open>The first part of \<^verbatim>\<open>stop\<close>, under the lock: collect what is to be restored and
  the tasks to cancel, close the animators of the frame effects involved, and cancel the
  tasks that are not done.\<close>

definition lights_to_restore :: "Conductor \<Rightarrow> Light list \<Rightarrow> (Light \<times> PreState) list" where
  "lights_to_restore self lights =
     concat (map (\<lambda>light. case map_of (running self) (light_serial light) of
                             None \<Rightarrow> []
                           | Some r \<Rightarrow> [(light, prestate r)]) lights)"

definition tasks_to_cancel :: "Conductor \<Rightarrow> Light list \<Rightarrow> task_ref set" where
  "tasks_to_cancel self lights =
     set (concat (map (\<lambda>light. case map_of (running self) (light_serial light) of
                                  None \<Rightarrow> []
                                | Some r \<Rightarrow> [task r]) lights))"

definition close_animators :: "effect_object \<Rightarrow> effect_object" where
  "close_animators eff = eff\<lparr>animators := []\<rparr>"

definition stopped_effects :: "Conductor \<Rightarrow> Light list \<Rightarrow> effect_ref set" where
  "stopped_effects self lights =
     set (concat (map (\<lambda>light. case map_of (running self) (light_serial light) of
                                  None \<Rightarrow> []
                                | Some r \<Rightarrow>
                                    if is_frame_effect (effects self (effect r))
                                    then [effect r] else []) lights))"

definition cancel :: "task_state \<Rightarrow> task_state" where
  "cancel st = (if st = Done then st else Cancelled)"

definition stop_begin :: "Conductor \<Rightarrow> Light list \<Rightarrow> Conductor" where
  "stop_begin self lights =
     self\<lparr>effects := (\<lambda>e. if e \<in> stopped_effects self lights
                            then close_animators (effects self e) else effects self e),
          tasks := map (\<lambda>(t, st). if t \<in> tasks_to_cancel self lights then cancel st else st)
                     (zip [0..<length (tasks self)] (tasks self))\<rparr>"

text \<open>The loop that ends \<^verbatim>\<open>stop\<close>: every light of the argument is removed from the
  running map.\<close>

fun unregister :: "Light list \<Rightarrow> (string \<times> RunningEffect) list \<Rightarrow> (string \<times> RunningEffect) list" where
  "unregister [] run = run"
| "unregister (light # lights) run =
     unregister lights
       (if light_serial light \<in> fst ` set run then dict_del (light_serial light) run else run)"

text \<open>The second part, under the lock again: restore, then unregister. A restore that
  raises ends \<^verbatim>\<open>stop\<close> with its exception before anything is unregistered.\<close>

definition stop_finish ::
  "environment \<Rightarrow> Conductor \<Rightarrow> Light list \<Rightarrow> (Light \<times> PreState) list \<Rightarrow> py_error + Conductor" where
  "stop_finish env self lights to_restore =
     (case gather_unit (\<lambda>(light, pre). restore_state env light pre) to_restore of
        Some err \<Rightarrow> Inl err
      | None \<Rightarrow> Inr (self\<lparr>running := unregister lights (running self)\<rparr>))"

text \<open>\<^verbatim>\<open>Conductor.stop\<close>. Between its two parts the lock is released while the
  cancelled tasks are awaited; \<open>meanwhile\<close> is whatever other coroutines do to the
  conductor in that time.\<close>

definition stop ::
  "environment \<Rightarrow> (Conductor \<Rightarrow> Conductor) \<Rightarrow> Conductor \<Rightarrow> Light list \<Rightarrow> py_error + Conductor" where
  "stop env meanwhile self lights =
     stop_finish env (meanwhile (stop_begin self lights)) lights (lights_to_restore self lights)"

subsection \<open>\<^verbatim>\<open>add_lights\<close>\<close>

text \<open>The lights that are not yet running this effect.\<close>

definition runs :: "Conductor \<Rightarrow> effect_ref \<Rightarrow> Light \<Rightarrow> bool" where
  "runs self e light =
     (case map_of (running self) (light_serial light) of
        None \<Rightarrow> False
      | Some r \<Rightarrow> effect r = e)"

text \<open>The task of the first entry of the running map that holds the effect.\<close>

definition find_task :: "Conductor \<Rightarrow> effect_ref \<Rightarrow> task_ref option" where
  "find_task self e =
     (case filter (\<lambda>item. effect (snd item) = e) (running self) of
        [] \<Rightarrow> None
      | item # others \<Rightarrow> Some (task (snd item)))"

definition add_lights ::
  "environment \<Rightarrow> Conductor \<Rightarrow> effect_ref \<Rightarrow> Light list \<Rightarrow> py_error + Conductor" where
  "add_lights env self e lights =
     (let compatible = filter_compatible_lights env e lights in
      if compatible = [] then Inr self
      else
        let new_lights = filter (\<lambda>light. \<not> runs self e light) compatible in
        if new_lights = [] then Inr self
        else case find_task self e of
          None \<Rightarrow> Inr self
        | Some t \<Rightarrow>
            (case gather (capture_state env) new_lights of
               Inl err \<Rightarrow> Inl err
             | Inr captured \<Rightarrow>
                 let prestates = dict_of (zip (map light_serial new_lights) captured) in
                 case (if is_frame_effect (effects self e)
                       then create_animators (effects self e) new_lights
                       else Inr []) of
                   Inl err \<Rightarrow> Inl err
                 | Inr new_animators \<Rightarrow>
                     (case register e t prestates new_lights (running self) of
                        Inl err \<Rightarrow> Inl err
                      | Inr run \<Rightarrow>
                          Inr (self\<lparr>effects := (effects self)
                                 (e := (effects self e)
                                    \<lparr>participants := participants (effects self e) @ new_lights,
                                     animators := animators (effects self e) @ new_animators\<rparr>),
                                    running := run\<rparr>))))"

section \<open>The frame loop\<close>







section \<open>The frame generators\<close>


subsection \<open>Rainbow\<close>



subsection \<open>Flame\<close>






subsection \<open>Aurora\<close>






subsection \<open>Colour loop\<close>





subsection \<open>Progress bar\<close>






subsection \<open>Sunrise and sunset\<close>







subsection \<open>Brightness variance of a frame\<close>



section \<open>Concrete inputs\<close>

text \<open>An open connection whose next sequence number is 0, and the observations of a
  request (\<open>timeout = 0.5\<close>, \<open>max_retries = 2\<close>) that the device never answers: the first
  attempt finds its deadline passed, the second polls idly twice, and in the third a
  stale packet with sequence number 9 arrives before the deadline.\<close>

definition example_connection :: ActualConnection where
  "example_connection =
     conn_open (ActualConnection_init ''d073d5123456'' ''192.168.1.100'' 8 8 0)"

definition stale_header :: LifxHeader where
  "stale_header = \<lparr>sequence = 9, pkt_type = 107\<rparr>"

definition silent_device :: "poll list list" where
  "silent_device = [[Expired], [Idle False, Idle True], [Recv stale_header [], Expired]]"

text \<open>A pool of capacity 2 after requests for two serials, and the heap with the two
  connections it opened.\<close>

definition two_pooled :: "ConnectionPool \<times> heap" where
  "two_pooled =
     get_connections (ConnectionPool_init 2, [])
       [request_for ''d073d5000001'', request_for ''d073d5000002'']"

text \<open>Three lights, of which the single-colour bulb is not compatible with the effect,
  an environment in which every capture and restore succeeds, and a conductor on which
  the frame effect 0 has been started on the strip.\<close>

definition strip :: Light where
  "strip = \<lparr>light_serial = ''d073d5aaaaaa'', light_kind = MultiZoneLight\<rparr>"

definition tile :: Light where
  "tile = \<lparr>light_serial = ''d073d5bbbbbb'', light_kind = MatrixLight\<rparr>"

definition bulb :: Light where
  "bulb = \<lparr>light_serial = ''d073d5cccccc'', light_kind = SingleLight\<rparr>"

definition warm_white :: PreState where
  "warm_white =
     \<lparr>prestate_power = True,
      prestate_color = \<lparr>hue = 0, saturation = 0, brightness = 1, kelvin = 2700\<rparr>,
      zone_colors = None\<rparr>"

definition calm :: environment where
  "calm =
     \<lparr>is_light_compatible = (\<lambda>e light. light_kind light \<noteq> SingleLight),
      inherit_prestate = (\<lambda>e other. False),
      capture_state = (\<lambda>light. Inr warm_white),
      restore_state = (\<lambda>light pre. None)\<rparr>"

definition idle_conductor :: Conductor where
  "idle_conductor =
     \<lparr>running = [],
      effects = (\<lambda>e. \<lparr>is_frame_effect = True, effect_fps = 20, participants = [],
                       animators = []\<rparr>),
      tasks = []\<rparr>"

definition strip_running :: Conductor where
  "strip_running = (case start calm idle_conductor 0 [strip] of Inr c \<Rightarrow> c | Inl err \<Rightarrow> idle_conductor)"

definition strip_stopped :: Conductor where
  "strip_stopped =
     (case stop calm id strip_running [strip, bulb] of Inr c \<Rightarrow> c | Inl err \<Rightarrow> strip_running)"

definition tile_added :: Conductor where
  "tile_added =
     (case add_lights calm strip_running 0 [strip, tile, bulb] of
        Inr c \<Rightarrow> c | Inl err \<Rightarrow> strip_running)"


















section \<open>Properties of the constructors\<close>

lemma subclass_init_Inr [simp]:
  "subclass_init (Inr b) flds = Inr (FrameEffect.extend b flds)"
  by (simp add: subclass_init_def)

lemma FrameEffect_init_default [simp]:
  "FrameEffect_init po 20 None = Inr \<lparr>power_on = po, fps = 20, duration = None\<rparr>"
  by (simp add: FrameEffect_init_def)

text \<open>
  \<^bold>\<open>C10.\<close> Every frame-effect constructor validates its parameters: it raises
  \<^verbatim>\<open>ValueError\<close>, and constructs nothing, exactly when a parameter is out of range, and
  otherwise constructs the effect with the parameters it was given. \<^verbatim>\<open>FrameEffect\<close>
  rejects \<open>fps \<le> 0\<close> and a duration that is given and \<open>\<le> 0\<close>; the rainbow rejects a period
  \<open>\<le> 0\<close>, a brightness or saturation outside \<open>[0, 1]\<close> and a spread outside \<open>[0, 360]\<close>;
  the flame rejects an intensity outside \<open>[0, 1]\<close>, a speed \<open>\<le> 0\<close>, a kelvin range outside
  the device limits or with \<open>kelvin_min > kelvin_max\<close>, and a brightness outside \<open>[0, 1]\<close>.
  The other constructors of the catalog (aurora, colour loop, progress, sunrise, sunset)
  follow the same pattern.
\<close>

theorem constructors_validate_parameters:
  "FrameEffect_init po f d =
     (if f \<le> 0 \<or> (\<exists>v. d = Some v \<and> v \<le> 0) then Inl ValueError
      else Inr \<lparr>power_on = po, fps = f, duration = d\<rparr>)
   \<and> EffectRainbow_init po period b s spread =
     (if period \<le> 0 \<or> b < 0 \<or> 1 < b \<or> s < 0 \<or> 1 < s \<or> spread < 0 \<or> 360 < spread
      then Inl ValueError
      else Inr \<lparr>power_on = po, fps = 20, duration = None, rainbow_period = period,
                 rainbow_brightness = b, rainbow_saturation = s, rainbow_spread = spread\<rparr>)
   \<and> EffectFlame_init lo hi po intensity speed kmin kmax b =
     (if intensity < 0 \<or> 1 < intensity \<or> speed \<le> 0 \<or> kmin < lo \<or> hi < kmax \<or> kmax < kmin
         \<or> b < 0 \<or> 1 < b
      then Inl ValueError
      else Inr \<lparr>power_on = po, fps = 20, duration = None, flame_intensity = intensity,
                 flame_speed = speed, flame_kelvin_min = kmin, flame_kelvin_max = kmax,
                 flame_brightness = b\<rparr>)
   \<and> EffectAurora_init po speed b pal spread =
     (if speed \<le> 0 \<or> b < 0 \<or> 1 < b \<or> spread < 0 \<or> 360 < spread
         \<or> (\<exists>p. pal = Some p \<and> (length p < 2 \<or> (\<exists>h \<in> set p. h < 0 \<or> 360 < h)))
      then Inl ValueError
      else Inr \<lparr>power_on = po, fps = 20, duration = None, aurora_speed = speed,
                 aurora_brightness = b,
                 aurora_palette = (case pal of None \<Rightarrow> DEFAULT_PALETTE | Some p \<Rightarrow> p),
                 aurora_spread = spread\<rparr>)
   \<and> EffectSunrise_init po dur b origin =
     (if dur \<le> 0 \<or> b < 0 \<or> 1 < b \<or> (origin \<noteq> ''bottom'' \<and> origin \<noteq> ''center'')
      then Inl ValueError
      else Inr \<lparr>power_on = po, fps = 20, duration = Some dur, sunrise_brightness = b,
                 sunrise_origin = origin\<rparr>)
   \<and> EffectSunset_init po dur b off origin =
     (if dur \<le> 0 \<or> b < 0 \<or> 1 < b \<or> (origin \<noteq> ''bottom'' \<and> origin \<noteq> ''center'')
      then Inl ValueError
      else Inr \<lparr>power_on = po, fps = 20, duration = Some dur, sunset_brightness = b,
                 sunset_power_off = off, sunset_origin = origin\<rparr>)"
proof -
  have frame: "FrameEffect_init po f d =
     (if f \<le> 0 \<or> (\<exists>v. d = Some v \<and> v \<le> 0) then Inl ValueError
      else Inr \<lparr>power_on = po, fps = f, duration = d\<rparr>)"
    by (auto simp: FrameEffect_init_def split: option.splits)
  have rainbow: "EffectRainbow_init po period b s spread =
     (if period \<le> 0 \<or> b < 0 \<or> 1 < b \<or> s < 0 \<or> 1 < s \<or> spread < 0 \<or> 360 < spread
      then Inl ValueError
      else Inr \<lparr>power_on = po, fps = 20, duration = None, rainbow_period = period,
                 rainbow_brightness = b, rainbow_saturation = s, rainbow_spread = spread\<rparr>)"
    by (auto simp: EffectRainbow_init_def FrameEffect.extend_def EffectRainbow.fields_def)
  have flame: "EffectFlame_init lo hi po intensity speed kmin kmax b =
     (if intensity < 0 \<or> 1 < intensity \<or> speed \<le> 0 \<or> kmin < lo \<or> hi < kmax \<or> kmax < kmin
         \<or> b < 0 \<or> 1 < b
      then Inl ValueError
      else Inr \<lparr>power_on = po, fps = 20, duration = None, flame_intensity = intensity,
                 flame_speed = speed, flame_kelvin_min = kmin, flame_kelvin_max = kmax,
                 flame_brightness = b\<rparr>)"
    by (auto simp: EffectFlame_init_def FrameEffect.extend_def EffectFlame.fields_def)
  have aurora: "EffectAurora_init po speed b pal spread =
     (if speed \<le> 0 \<or> b < 0 \<or> 1 < b \<or> spread < 0 \<or> 360 < spread
         \<or> (\<exists>p. pal = Some p \<and> (length p < 2 \<or> (\<exists>h \<in> set p. h < 0 \<or> 360 < h)))
      then Inl ValueError
      else Inr \<lparr>power_on = po, fps = 20, duration = None, aurora_speed = speed,
                 aurora_brightness = b,
                 aurora_palette = (case pal of None \<Rightarrow> DEFAULT_PALETTE | Some p \<Rightarrow> p),
                 aurora_spread = spread\<rparr>)"
    by (cases pal)
      (auto simp: EffectAurora_init_def FrameEffect.extend_def EffectAurora.fields_def not_le)
  have sunrise: "EffectSunrise_init po dur b origin =
     (if dur \<le> 0 \<or> b < 0 \<or> 1 < b \<or> (origin \<noteq> ''bottom'' \<and> origin \<noteq> ''center'')
      then Inl ValueError
      else Inr \<lparr>power_on = po, fps = 20, duration = Some dur, sunrise_brightness = b,
                 sunrise_origin = origin\<rparr>)"
    by (auto simp: EffectSunrise_init_def FrameEffect_init_def VALID_ORIGINS_def
        FrameEffect.extend_def EffectSunrise.fields_def)
  have sunset: "EffectSunset_init po dur b off origin =
     (if dur \<le> 0 \<or> b < 0 \<or> 1 < b \<or> (origin \<noteq> ''bottom'' \<and> origin \<noteq> ''center'')
      then Inl ValueError
      else Inr \<lparr>power_on = po, fps = 20, duration = Some dur, sunset_brightness = b,
                 sunset_power_off = off, sunset_origin = origin\<rparr>)"
    by (auto simp: EffectSunset_init_def FrameEffect_init_def VALID_ORIGINS_def
        FrameEffect.extend_def EffectSunset.fields_def)
  from frame rainbow flame aurora sunrise sunset show ?thesis
    by (intro conjI)
qed

section \<open>Properties of the request engine\<close>




lemma ack_loop_unanswered:
  "list_all (unanswered seq) body \<Longrightarrow> deadline t \<Longrightarrow>
   ack_loop seq (body @ t # rest) = ([], TimeoutError rest)"
proof (induction body)
  case Nil
  then show ?case by (cases t) auto
next
  case (Cons e body)
  then show ?case by (cases e) auto
qed








text \<open>The same run, evaluated: the three attempts carry the sequence numbers 0, 1, 2 and
  the timeouts 1/14, 1/7 and 2/7 of a second.\<close>

lemma request_stream_example_run:
  "request_stream example_connection None (Some (1 / 2)) (Some 2) (concat silent_device)
     = (\<lparr>yielded = [], finish = Raised LifxTimeoutError,
         attempts = [(0, 1 / 14), (1, 1 / 7), (2, 2 / 7)]\<rparr>,
        example_connection\<lparr>next_sequence := 3\<rparr>)"
  by (simp add: request_stream_def example_connection_def conn_open_def
      ActualConnection_init_def base_timeout_def total_weight_def py_pow2_def py_range_def
      upto_rec1 silent_device_def stale_header_def current_timeout_def log_attempt_def)





text \<open>
  \<^bold>\<open>C3.\<close> During an attempt of \<^verbatim>\<open>request_stream\<close> or \<^verbatim>\<open>request_ack_stream\<close>, a
  received packet whose sequence number differs from the one allocated for the attempt
  is dropped silently: the loop goes on exactly as if the packet had not arrived, so it
  raises no error because of it, and the packet is never among the responses yielded.
\<close>

theorem foreign_sequence_is_dropped:
  assumes "sequence header \<noteq> seq"
  shows "response_loop seq expected has_yielded (Recv header pl # evs)
           = response_loop seq expected has_yielded evs
       \<and> ack_loop seq (Recv header pl # evs) = ack_loop seq evs
       \<and> (header, pl) \<notin> set (fst (response_loop seq expected has_yielded evs'))"
proof -
  have "(h, p) \<in> set (fst (response_loop seq expected hy es)) \<Longrightarrow> sequence h = seq"
    for h p hy es
    by (induction seq expected hy es rule: response_loop.induct)
       (auto split: if_splits prod.splits)
  then show ?thesis using assms by auto
qed

theorem foreign_sequence_is_dropped_witness:
  "sequence stale_header \<noteq> 2
   \<and> response_loop 2 None False (Recv stale_header [] # [Expired])
       = response_loop 2 None False [Expired]
   \<and> ack_loop 2 (Recv stale_header [] # [Expired]) = ack_loop 2 [Expired]
   \<and> (stale_header, []) \<notin> set (fst (response_loop 2 None False
          [Recv stale_header [], Recv \<lparr>sequence = 2, pkt_type = 107\<rparr> [1], Expired]))"
proof -
  have h: "sequence stale_header \<noteq> 2" by (simp add: stale_header_def)
  from foreign_sequence_is_dropped [OF h, of None False "[]" "[Expired]"
      "[Recv stale_header [], Recv \<lparr>sequence = 2, pkt_type = 107\<rparr> [1], Expired]"] h
  show ?thesis by simp
qed

section \<open>Properties of the connection pool\<close>

lemma length_od_set:
  "length (od_set k v items) = (if k \<in> fst ` set items then length items else Suc (length items))"
  by (induction items) auto

lemma od_set_fresh: "k \<notin> fst ` set items \<Longrightarrow> od_set k v items = items @ [(k, v)]"
  by (induction items) auto

lemma od_set_moved:
  "od_set k v (filter (\<lambda>item. fst item \<noteq> k) items @ [(k, w)])
     = filter (\<lambda>item. fst item \<noteq> k) items @ [(k, v)]"
  by (induction items) auto

lemma length_without_key:
  "map_of items k = Some v \<Longrightarrow> length (filter (\<lambda>item. fst item \<noteq> k) items) < length items"
  by (rule length_filter_less [of "(k, v)"]) (auto dest: map_of_SomeD)

lemma get_connection_hit:
  assumes "map_of (connections self) (req_serial rq) = Some (c, t)"
    and "c < length h" and "is_open (h ! c)"
  shows "get_connection self h rq =
     (Inr c,
      self\<lparr>metrics := count_hit (count_request (metrics self)),
           connections := filter (\<lambda>item. fst item \<noteq> req_serial rq) (connections self)
                            @ [(req_serial rq, c, now rq)]\<rparr>,
      h)"
  using assms
  by (simp add: get_connection_def pooled_open_def od_move_to_end_def od_set_moved)

lemma get_connection_evicts:
  assumes "map_of (connections self) (req_serial rq) = None"
    and "max_connections self \<le> int (length (connections self))"
    and "connections self = (lru, old, t) # others"
  shows "get_connection self h rq =
     (Inr (length h),
      self\<lparr>metrics := count_eviction (eviction_time_ms rq)
                          (count_miss (count_request (metrics self))),
           connections := others @ [(req_serial rq, length h, now rq)]\<rparr>,
      heap_update old conn_close
        (h @ [conn_open (ActualConnection_init (req_serial rq) (req_ip rq)
                           (req_max_retries rq) (req_timeout rq) (first_sequence rq))]))"
proof -
  have "req_serial rq \<notin> fst ` set others"
    using assms(1,3) by (auto simp: map_of_eq_None_iff split: if_splits)
  then show ?thesis
    using assms
    by (simp add: get_connection_def pooled_open_def od_popitem_first_def od_set_fresh
        Let_def)
qed

lemma get_connection_bounded:
  assumes "int (length (connections self)) \<le> max_connections self"
  shows "int (length (connections (fst (snd (get_connection self h rq)))))
           \<le> max_connections (fst (snd (get_connection self h rq)))
       \<and> max_connections (fst (snd (get_connection self h rq))) = max_connections self"
proof (cases "pooled_open self h (req_serial rq)")
  case (Some conn)
  then obtain t where m: "map_of (connections self) (req_serial rq) = Some (conn, t)"
    by (auto simp: pooled_open_def split: option.splits if_splits)
  from length_without_key [OF m] assms Some m show ?thesis
    by (simp add: get_connection_def pooled_open_def od_move_to_end_def od_set_moved)
next
  case None
  show ?thesis
  proof (cases "connections self")
    case Nil
    with None assms show ?thesis
      by (simp add: get_connection_def pooled_open_def od_popitem_first_def Let_def)
  next
    case (Cons item others)
    obtain lru old t where item: "item = (lru, old, t)" by (cases item) auto
    have "length (od_set (req_serial rq) (length h, now rq) others) \<le> Suc (length others)"
      by (simp add: length_od_set)
    moreover have "length (od_set (req_serial rq) (length h, now rq) (item # others))
        \<le> Suc (Suc (length others))"
      by (simp only: length_od_set list.size) simp
    ultimately show ?thesis
      using None assms Cons item
      by (simp add: get_connection_def pooled_open_def od_popitem_first_def Let_def
          del: od_set.simps)
  qed
qed

lemma get_connections_bounded:
  "int (length (connections (fst st))) \<le> max_connections (fst st) \<Longrightarrow>
     int (length (connections (fst (get_connections st rqs)))) \<le> max_connections (fst st)"
proof (induction rqs arbitrary: st)
  case Nil
  then show ?case by simp
next
  case (Cons rq rqs)
  obtain self h where st: "st = (self, h)" by (cases st)
  from get_connection_bounded [of self h rq] Cons.prems st
  have "int (length (connections (fst (snd (get_connection self h rq)))))
           \<le> max_connections (fst (snd (get_connection self h rq)))"
    and "max_connections (fst (snd (get_connection self h rq))) = max_connections self"
    by simp_all
  with Cons.IH [of "snd (get_connection self h rq)"] st show ?case by simp
qed

lemma three_serials_capacity_two:
  assumes "distinct [req_serial r1, req_serial r2, req_serial r3]"
  shows "map fst (connections (fst (get_connections (ConnectionPool_init 2, []) [r1, r2, r3])))
          = [req_serial r2, req_serial r3]
       \<and> evictions (metrics (fst (get_connections (ConnectionPool_init 2, []) [r1, r2, r3]))) = 1
       \<and> hits (metrics (fst (get_connections (ConnectionPool_init 2, []) [r1, r2, r3]))) = 0
       \<and> misses (metrics (fst (get_connections (ConnectionPool_init 2, []) [r1, r2, r3]))) = 3
       \<and> map is_open (snd (get_connections (ConnectionPool_init 2, []) [r1, r2, r3]))
          = [False, True, True]
       \<and> map conn_serial (snd (get_connections (ConnectionPool_init 2, []) [r1, r2, r3]))
          = [req_serial r1, req_serial r2, req_serial r3]"
proof -
  from assms have ne: "req_serial r1 \<noteq> req_serial r2" "req_serial r2 \<noteq> req_serial r1"
    "req_serial r1 \<noteq> req_serial r3" "req_serial r3 \<noteq> req_serial r1"
    "req_serial r2 \<noteq> req_serial r3" "req_serial r3 \<noteq> req_serial r2"
    by auto
  show ?thesis
  by (simp add: ne get_connection_def pooled_open_def od_popitem_first_def Let_def
      ConnectionPool_init_def ConnectionPoolMetrics_init_def count_request_def count_miss_def
      count_eviction_def heap_update_def conn_open_def conn_close_def ActualConnection_init_def)
qed

lemma two_pooled_eval:
  "two_pooled =
     (\<lparr>max_connections = 2,
       connections = [(''d073d5000001'', 0, 0), (''d073d5000002'', 1, 0)],
       metrics = \<lparr>hits = 0, misses = 2, evictions = 0, total_requests = 2,
                  eviction_times_ms = []\<rparr>\<rparr>,
      [conn_open (ActualConnection_init ''d073d5000001'' ''192.168.1.100'' 8 8 0),
       conn_open (ActualConnection_init ''d073d5000002'' ''192.168.1.100'' 8 8 0)])"
  by (simp add: two_pooled_def get_connection_def pooled_open_def Let_def request_for_def
      ConnectionPool_init_def ConnectionPoolMetrics_init_def count_request_def count_miss_def)

text \<open>
  \<^bold>\<open>C5.\<close> For every sequence of \<^verbatim>\<open>get_connection\<close> calls on a pool of capacity \<open>N\<close>
  the number of pooled connections never exceeds \<open>N\<close>. A request for a serial that is not
  pooled, made when the pool is at capacity, removes exactly the least recently used
  entry (the first one), closes its connection and leaves every other entry in place,
  with the new connection appended as the most recently used. A request for a serial
  whose pooled connection is open returns that connection and moves its entry to the
  most recently used place. With capacity 2, requests for three distinct serials in
  order end with one eviction, no hit and three misses, the first serial evicted and its
  connection closed.
\<close>

theorem connection_pool_is_lru:
  "(0 \<le> N \<longrightarrow>
      int (length (connections (fst (get_connections (ConnectionPool_init N, []) rqs)))) \<le> N)
   \<and> (map_of (connections self) (req_serial rq) = None
        \<and> max_connections self \<le> int (length (connections self))
        \<and> connections self = (lru, old, t) # others \<and> old < length h \<longrightarrow>
      fst (get_connection self h rq) = Inr (length h)
      \<and> connections (fst (snd (get_connection self h rq)))
          = others @ [(req_serial rq, length h, now rq)]
      \<and> snd (snd (get_connection self h rq))
          = (h @ [conn_open (ActualConnection_init (req_serial rq) (req_ip rq)
                               (req_max_retries rq) (req_timeout rq) (first_sequence rq))])
            [old := conn_close (h ! old)]
      \<and> \<not> is_open (snd (snd (get_connection self h rq)) ! old)
      \<and> is_open (snd (snd (get_connection self h rq)) ! length h)
      \<and> evictions (metrics (fst (snd (get_connection self h rq))))
          = evictions (metrics self) + 1)
   \<and> (map_of (connections pool) (req_serial hq) = Some (c, u) \<and> c < length g \<and> is_open (g ! c) \<longrightarrow>
      get_connection pool g hq =
        (Inr c,
         pool\<lparr>metrics := count_hit (count_request (metrics pool)),
              connections := filter (\<lambda>item. fst item \<noteq> req_serial hq) (connections pool)
                               @ [(req_serial hq, c, now hq)]\<rparr>,
         g))
   \<and> (distinct [req_serial r1, req_serial r2, req_serial r3] \<longrightarrow>
      map fst (connections (fst (get_connections (ConnectionPool_init 2, []) [r1, r2, r3])))
          = [req_serial r2, req_serial r3]
      \<and> evictions (metrics (fst (get_connections (ConnectionPool_init 2, []) [r1, r2, r3]))) = 1
      \<and> hits (metrics (fst (get_connections (ConnectionPool_init 2, []) [r1, r2, r3]))) = 0
      \<and> misses (metrics (fst (get_connections (ConnectionPool_init 2, []) [r1, r2, r3]))) = 3
      \<and> map is_open (snd (get_connections (ConnectionPool_init 2, []) [r1, r2, r3]))
          = [False, True, True]
      \<and> map conn_serial (snd (get_connections (ConnectionPool_init 2, []) [r1, r2, r3]))
          = [req_serial r1, req_serial r2, req_serial r3])"
proof (intro conjI impI)
  assume "0 \<le> N"
  then show "int (length (connections (fst (get_connections (ConnectionPool_init N, []) rqs)))) \<le> N"
    using get_connections_bounded [of "(ConnectionPool_init N, [])" rqs]
    by (simp add: ConnectionPool_init_def)
next
  assume a: "map_of (connections self) (req_serial rq) = None
        \<and> max_connections self \<le> int (length (connections self))
        \<and> connections self = (lru, old, t) # others \<and> old < length h"
  then have a1: "map_of (connections self) (req_serial rq) = None"
    and a2: "max_connections self \<le> int (length (connections self))"
    and a3: "connections self = (lru, old, t) # others" by blast+
  have e: "get_connection self h rq =
     (Inr (length h),
      self\<lparr>metrics := count_eviction (eviction_time_ms rq)
                          (count_miss (count_request (metrics self))),
           connections := others @ [(req_serial rq, length h, now rq)]\<rparr>,
      heap_update old conn_close
        (h @ [conn_open (ActualConnection_init (req_serial rq) (req_ip rq)
                           (req_max_retries rq) (req_timeout rq) (first_sequence rq))]))"
    by (rule get_connection_evicts [OF a1 a2 a3])
  show "fst (get_connection self h rq) = Inr (length h)" by (simp add: e)
  show "connections (fst (snd (get_connection self h rq)))
          = others @ [(req_serial rq, length h, now rq)]" by (simp add: e)
  show "snd (snd (get_connection self h rq))
          = (h @ [conn_open (ActualConnection_init (req_serial rq) (req_ip rq)
                               (req_max_retries rq) (req_timeout rq) (first_sequence rq))])
            [old := conn_close (h ! old)]"
    using a by (simp add: e heap_update_def nth_append)
  show "\<not> is_open (snd (snd (get_connection self h rq)) ! old)"
    using a by (simp add: e heap_update_def nth_append conn_close_def)
  show "is_open (snd (snd (get_connection self h rq)) ! length h)"
    using a by (simp add: e heap_update_def conn_open_def ActualConnection_init_def)
  show "evictions (metrics (fst (snd (get_connection self h rq))))
          = evictions (metrics self) + 1"
    by (simp add: e count_eviction_def count_miss_def count_request_def)
next
  assume "map_of (connections pool) (req_serial hq) = Some (c, u) \<and> c < length g \<and> is_open (g ! c)"
  then have b: "map_of (connections pool) (req_serial hq) = Some (c, u)" "c < length g"
    "is_open (g ! c)" by blast+
  show "get_connection pool g hq =
        (Inr c,
         pool\<lparr>metrics := count_hit (count_request (metrics pool)),
              connections := filter (\<lambda>item. fst item \<noteq> req_serial hq) (connections pool)
                               @ [(req_serial hq, c, now hq)]\<rparr>,
         g)"
    by (rule get_connection_hit [OF b])
qed (use three_serials_capacity_two [of r1 r2 r3] in simp_all)


theorem connection_pool_is_lru_witness:
  "(0::int) \<le> 2
   \<and> int (length (connections (fst (get_connections (ConnectionPool_init 2, [])
          [request_for ''d073d5000001'', request_for ''d073d5000002'',
           request_for ''d073d5000003'', request_for ''d073d5000001''])))) \<le> 2
   \<and> map_of (connections (fst two_pooled)) (req_serial (request_for ''d073d5000003'')) = None
   \<and> max_connections (fst two_pooled) \<le> int (length (connections (fst two_pooled)))
   \<and> connections (fst two_pooled) = (''d073d5000001'', 0, 0) # [(''d073d5000002'', 1, 0)]
   \<and> (0::nat) < length (snd two_pooled)
   \<and> fst (get_connection (fst two_pooled) (snd two_pooled) (request_for ''d073d5000003''))
       = Inr 2
   \<and> connections (fst (snd (get_connection (fst two_pooled) (snd two_pooled)
                               (request_for ''d073d5000003''))))
       = [(''d073d5000002'', 1, 0), (''d073d5000003'', 2, 0)]
   \<and> \<not> is_open (snd (snd (get_connection (fst two_pooled) (snd two_pooled)
                              (request_for ''d073d5000003''))) ! 0)
   \<and> map_of (connections (fst two_pooled)) (req_serial (request_for ''d073d5000001''))
       = Some (0, 0)
   \<and> is_open (snd two_pooled ! 0)
   \<and> fst (get_connection (fst two_pooled) (snd two_pooled) (request_for ''d073d5000001''))
       = Inr 0
   \<and> connections (fst (snd (get_connection (fst two_pooled) (snd two_pooled)
                               (request_for ''d073d5000001''))))
       = [(''d073d5000002'', 1, 0), (''d073d5000001'', 0, 0)]
   \<and> distinct [req_serial (request_for ''d073d5000001''),
                req_serial (request_for ''d073d5000002''),
                req_serial (request_for ''d073d5000003'')]
   \<and> evictions (metrics (fst (get_connections (ConnectionPool_init 2, [])
          [request_for ''d073d5000001'', request_for ''d073d5000002'',
           request_for ''d073d5000003'']))) = 1
   \<and> hits (metrics (fst (get_connections (ConnectionPool_init 2, [])
          [request_for ''d073d5000001'', request_for ''d073d5000002'',
           request_for ''d073d5000003'']))) = 0
   \<and> misses (metrics (fst (get_connections (ConnectionPool_init 2, [])
          [request_for ''d073d5000001'', request_for ''d073d5000002'',
           request_for ''d073d5000003'']))) = 3"
proof -
  have h: "(0::int) \<le> 2"
    "map_of (connections (fst two_pooled)) (req_serial (request_for ''d073d5000003'')) = None"
    "max_connections (fst two_pooled) \<le> int (length (connections (fst two_pooled)))"
    "connections (fst two_pooled) = (''d073d5000001'', 0, 0) # [(''d073d5000002'', 1, 0)]"
    "(0::nat) < length (snd two_pooled)"
    "map_of (connections (fst two_pooled)) (req_serial (request_for ''d073d5000001''))
       = Some (0, 0)"
    "is_open (snd two_pooled ! 0)"
    "distinct [req_serial (request_for ''d073d5000001''),
               req_serial (request_for ''d073d5000002''),
               req_serial (request_for ''d073d5000003'')]"
    by (simp_all add: two_pooled_eval request_for_def conn_open_def ActualConnection_init_def)
  from connection_pool_is_lru [of 2 "[request_for ''d073d5000001'', request_for ''d073d5000002'',
           request_for ''d073d5000003'', request_for ''d073d5000001'']"
      "fst two_pooled" "request_for ''d073d5000003''" "''d073d5000001''" 0 0
      "[(''d073d5000002'', 1, 0)]" "snd two_pooled"
      "fst two_pooled" "request_for ''d073d5000001''" 0 0 "snd two_pooled"
      "request_for ''d073d5000001''" "request_for ''d073d5000002''"
      "request_for ''d073d5000003''"] h
  show ?thesis
    by (simp add: two_pooled_eval request_for_def numeral_2_eq_2 conn_close_def conn_open_def
        ActualConnection_init_def)
qed

section \<open>Properties of the conductor\<close>

lemma map_of_dict_del: "map_of (dict_del k items) k' = (if k' = k then None else map_of items k')"
  by (induction items) (auto simp: dict_del_def)

lemma unregister_absent:
  "map_of run k = None \<Longrightarrow> map_of (unregister lights run) k = None"
  by (induction lights arbitrary: run) (simp_all add: map_of_dict_del)

lemma unregister_removes:
  "light \<in> set lights \<Longrightarrow> map_of (unregister lights run) (light_serial light) = None"
proof (induction lights arbitrary: run)
  case Nil
  then show ?case by simp
next
  case (Cons l lights)
  show ?case
  proof (cases "light = l")
    case True
    have "map_of (if light_serial l \<in> fst ` set run then dict_del (light_serial l) run else run)
            (light_serial l) = None"
      by (simp add: map_of_dict_del) (simp add: map_of_eq_None_iff)
    then show ?thesis using True by (simp add: unregister_absent)
  next
    case False
    then show ?thesis using Cons by simp
  qed
qed

lemma unregister_keeps:
  "k \<notin> light_serial ` set lights \<Longrightarrow> map_of (unregister lights run) k = map_of run k"
  by (induction lights arbitrary: run) (simp_all add: map_of_dict_del)

text \<open>
  \<^bold>\<open>C4.\<close> After \<^verbatim>\<open>Conductor.stop(lights)\<close> has returned, \<^verbatim>\<open>Conductor.effect\<close> is
  \<^verbatim>\<open>None\<close> for every light of the argument, whether or not an effect was running on it
  when \<^verbatim>\<open>stop\<close> was called, and whatever other coroutines did to the conductor while the
  lock was released.
\<close>

theorem stop_clears_effect:
  assumes "stop env meanwhile self lights = Inr self'"
  shows "\<forall>light \<in> set lights. Conductor_effect self' light = None"
proof
  fix light assume "light \<in> set lights"
  from assms have "running self' = unregister lights (running (meanwhile (stop_begin self lights)))"
    by (auto simp: stop_def stop_finish_def split: option.splits)
  then show "Conductor_effect self' light = None"
    using unregister_removes [OF \<open>light \<in> set lights\<close>] by (simp add: Conductor_effect_def)
qed

lemma strip_running_eval:
  "running strip_running = [(''d073d5aaaaaa'', \<lparr>effect = 0, prestate = warm_white, task = 0\<rparr>)]
   \<and> participants (effects strip_running 0) = [strip]
   \<and> tasks strip_running = [Pending]
   \<and> is_frame_effect (effects strip_running 0)
   \<and> length (animators (effects strip_running 0)) = 1"
  by (simp add: strip_running_def start_def filter_compatible_lights_def calm_def strip_def
      start_prestates_def inherits_def inherited_prestates_def idle_conductor_def dict_of_def
      create_animators_def)

lemma strip_stop_eval:
  "stop calm id strip_running [strip, bulb] = Inr strip_stopped"
  by (simp add: strip_stopped_def stop_def stop_finish_def lights_to_restore_def
      strip_running_eval calm_def strip_def bulb_def split: option.splits)

theorem stop_clears_effect_witness:
  "Conductor_effect strip_running strip = Some 0
   \<and> stop calm id strip_running [strip, bulb] = Inr strip_stopped
   \<and> Conductor_effect strip_stopped strip = None
   \<and> Conductor_effect strip_stopped bulb = None"
proof -
  have h: "stop calm id strip_running [strip, bulb] = Inr strip_stopped"
    by (rule strip_stop_eval)
  from stop_clears_effect [OF h] h show ?thesis
    by (simp add: Conductor_effect_def strip_running_eval strip_def)
qed

lemma map_of_od_set: "map_of (od_set k v d) = (map_of d)(k \<mapsto> v)"
  by (induction d) (auto simp: fun_eq_iff)

lemma register_result:
  "register e t pres lights run = Inr run' \<Longrightarrow>
   map_of run' s =
     (if s \<in> light_serial ` set lights
      then Some \<lparr>effect = e, prestate = the (map_of pres s), task = t\<rparr>
      else map_of run s)"
proof (induction lights arbitrary: run)
  case Nil
  then show ?case by simp
next
  case (Cons l lights)
  from Cons.prems obtain pre where pre: "map_of pres (light_serial l) = Some pre"
    and rest: "register e t pres lights
                 (od_set (light_serial l) \<lparr>effect = e, prestate = pre, task = t\<rparr> run) = Inr run'"
    by (auto split: option.splits)
  from Cons.IH [OF rest] pre show ?case
    by (auto simp: map_of_od_set)
qed

lemma register_defined:
  "register e t pres lights run = Inr run' \<Longrightarrow> l \<in> set lights \<Longrightarrow>
   \<exists>pre. map_of pres (light_serial l) = Some pre"
  by (induction lights arbitrary: run) (auto split: option.splits)

lemma gather_result: "gather f xs = Inr ys \<Longrightarrow> list_all2 (\<lambda>x y. f x = Inr y) xs ys"
  by (induction xs arbitrary: ys) (auto split: sum.splits)

lemma map_of_foldl_od_set:
  "map_of (foldl (\<lambda>d kv. od_set (fst kv) (snd kv) d) d kvs) k =
     (case map_of (rev kvs) k of Some v \<Rightarrow> Some v | None \<Rightarrow> map_of d k)"
proof (induction kvs arbitrary: d)
  case Nil
  then show ?case by simp
next
  case (Cons kv kvs)
  show ?case
    by (simp add: Cons.IH map_of_od_set map_add_def split: option.splits)
qed

lemma dict_of_zip_captured:
  assumes "gather f ls = Inr captured"
    and "map_of (dict_of (zip (map light_serial ls) captured)) s = Some pre"
  shows "\<exists>l \<in> set ls. light_serial l = s \<and> f l = Inr pre"
proof -
  from assms(2) have "map_of (rev (zip (map light_serial ls) captured)) s = Some pre"
    by (simp add: dict_of_def map_of_foldl_od_set split: option.splits)
  then have "(s, pre) \<in> set (zip (map light_serial ls) captured)"
    by (auto dest: map_of_SomeD)
  then obtain i where i: "i < length ls" "i < length captured" "light_serial (ls ! i) = s"
    "captured ! i = pre"
    by (auto simp: in_set_zip)
  from gather_result [OF assms(1)] i have "f (ls ! i) = Inr pre"
    by (auto dest: list_all2_nthD)
  with i show ?thesis by (auto intro!: bexI [of _ "ls ! i"])
qed

lemma find_task_bound:
  assumes "runs self e p"
    and "\<forall>item \<in> set (running self). effect (snd item) = e \<longrightarrow> task (snd item) = t"
  shows "find_task self e = Some t"
proof -
  from assms(1) obtain r where r: "map_of (running self) (light_serial p) = Some r" "effect r = e"
    by (auto simp: runs_def split: option.splits)
  then have "(light_serial p, r) \<in> set (filter (\<lambda>item. effect (snd item) = e) (running self))"
    by (auto dest: map_of_SomeD)
  then obtain item others where f: "filter (\<lambda>item. effect (snd item) = e) (running self) = item # others"
    by (cases "filter (\<lambda>item. effect (snd item) = e) (running self)") auto
  then have "item \<in> set (filter (\<lambda>item. effect (snd item) = e) (running self))" by simp
  then have "task (snd item) = t" using assms(2) by auto
  with f show ?thesis by (simp add: find_task_def)
qed

lemma add_lights_result:
  assumes P: "participants (effects self e) = P" "P \<noteq> []"
    and bound: "\<forall>light. runs self e light = (light_serial light \<in> light_serial ` set P)"
    and tsk: "\<forall>item \<in> set (running self). effect (snd item) = e \<longrightarrow> task (snd item) = t"
    and ret: "add_lights env self e L = Inr self'"
    and L': "L' = filter (\<lambda>l. is_light_compatible env e l
                                \<and> light_serial l \<notin> light_serial ` set P) L"
  shows "participants (effects self' e) = P @ L'
       \<and> (\<forall>light \<in> set L'. \<exists>pre.
             map_of (running self') (light_serial light)
               = Some \<lparr>effect = e, prestate = pre, task = t\<rparr>
             \<and> (\<exists>l \<in> set L'. light_serial l = light_serial light
                   \<and> capture_state env l = Inr pre))
       \<and> (\<forall>s. s \<notin> light_serial ` set L' \<longrightarrow> map_of (running self') s = map_of (running self) s)
       \<and> length (animators (effects self' e))
           = length (animators (effects self e))
             + (if is_frame_effect (effects self e) then length L' else 0)"
proof -
  have new: "filter (\<lambda>light. \<not> runs self e light) (filter_compatible_lights env e L) = L'"
    using bound by (simp add: L' filter_compatible_lights_def conj_commute)
  show ?thesis
  proof (cases "L' = []")
    case True
    then have "self' = self"
      using ret new by (auto simp: add_lights_def Let_def split: if_splits)
    then show ?thesis using True P by simp
  next
    case False
    then have ne: "filter_compatible_lights env e L \<noteq> []" using new by auto
    from P obtain p where "p \<in> set P" by (cases P) auto
    then have "runs self e p" using bound by auto
    then have ft: "find_task self e = Some t" using tsk by (rule find_task_bound)
    from ret ne False ft new obtain captured new_animators run where
      cap: "gather (capture_state env) L' = Inr captured"
      and an: "(if is_frame_effect (effects self e)
                then create_animators (effects self e) L' else Inr []) = Inr new_animators"
      and reg: "register e t (dict_of (zip (map light_serial L') captured)) L' (running self)
                  = Inr run"
      and self': "self' = self\<lparr>effects := (effects self)
                                 (e := (effects self e)
                                    \<lparr>participants := participants (effects self e) @ L',
                                     animators := animators (effects self e) @ new_animators\<rparr>),
                                running := run\<rparr>"
      by (auto simp: add_lights_def Let_def split: sum.splits)
    have parts: "participants (effects self' e) = P @ L'"
      by (simp add: self' P)
    have run: "map_of run s =
       (if s \<in> light_serial ` set L'
        then Some \<lparr>effect = e,
                   prestate = the (map_of (dict_of (zip (map light_serial L') captured)) s),
                   task = t\<rparr>
        else map_of (running self) s)" for s
      by (rule register_result [OF reg])
    have entry: "\<exists>pre. map_of (running self') (light_serial light)
               = Some \<lparr>effect = e, prestate = pre, task = t\<rparr>
             \<and> (\<exists>l \<in> set L'. light_serial l = light_serial light
                   \<and> capture_state env l = Inr pre)" if "light \<in> set L'" for light
    proof -
      from register_defined [OF reg that] obtain pre
        where pre: "map_of (dict_of (zip (map light_serial L') captured)) (light_serial light)
                      = Some pre" by blast
      from dict_of_zip_captured [OF cap pre]
      have "\<exists>l \<in> set L'. light_serial l = light_serial light \<and> capture_state env l = Inr pre" .
      moreover have "map_of (running self') (light_serial light)
          = Some \<lparr>effect = e, prestate = pre, task = t\<rparr>"
        using that pre by (simp add: self' run)
      ultimately show ?thesis by blast
    qed
    have others: "map_of (running self') s = map_of (running self) s"
      if "s \<notin> light_serial ` set L'" for s
      using that by (simp add: self' run)
    have anims: "length (animators (effects self' e))
           = length (animators (effects self e))
             + (if is_frame_effect (effects self e) then length L' else 0)"
      using an by (auto simp: self' create_animators_def split: if_splits)
    from parts entry others anims show ?thesis by blast
  qed
qed

text \<open>
  \<^bold>\<open>C6.\<close> Let \<open>e\<close> be running with the participants \<open>P\<close> that \<^verbatim>\<open>start\<close> registered: \<open>P\<close> is
  not empty, the running map binds to \<open>e\<close> exactly the serials of \<open>P\<close>, and all of these
  entries hold the task \<open>t\<close> of \<open>e\<close>. After \<^verbatim>\<open>add_lights(e, L)\<close> has returned, the
  participants of \<open>e\<close> are \<open>P\<close> followed by \<open>L'\<close>, the compatible lights of \<open>L\<close> that are not
  participants yet, in the order of \<open>L\<close>; lights already bound to \<open>e\<close> are skipped; each
  light of \<open>L'\<close> is registered in the running map under \<open>e\<close> and \<open>t\<close> with a pre-state
  freshly captured from a light with its serial; the other entries are untouched; and a
  frame effect has one more animator per light of \<open>L'\<close>.
\<close>

theorem add_lights_appends:
  assumes P: "participants (effects self e) = P" "P \<noteq> []"
    and bound: "\<forall>light. runs self e light = (light_serial light \<in> light_serial ` set P)"
    and tsk: "\<forall>item \<in> set (running self). effect (snd item) = e \<longrightarrow> task (snd item) = t"
    and ret: "add_lights env self e L = Inr self'"
    and L': "L' = filter (\<lambda>l. is_light_compatible env e l
                                \<and> light_serial l \<notin> light_serial ` set P) L"
  shows "participants (effects self' e) = P @ L'
       \<and> (\<forall>light \<in> set L'. \<exists>pre.
             map_of (running self') (light_serial light)
               = Some \<lparr>effect = e, prestate = pre, task = t\<rparr>
             \<and> (\<exists>l \<in> set L'. light_serial l = light_serial light
                   \<and> capture_state env l = Inr pre))
       \<and> (\<forall>s. s \<notin> light_serial ` set L' \<longrightarrow> map_of (running self') s = map_of (running self) s)
       \<and> length (animators (effects self' e))
           = length (animators (effects self e))
             + (if is_frame_effect (effects self e) then length L' else 0)"
  using add_lights_result [OF P bound tsk ret L'] .

lemma tile_added_eval:
  "add_lights calm strip_running 0 [strip, tile, bulb] = Inr tile_added"
  by (simp add: tile_added_def add_lights_def filter_compatible_lights_def calm_def strip_def
      tile_def bulb_def runs_def strip_running_eval find_task_def dict_of_def Let_def
      create_animators_def strip_running_def start_def start_prestates_def inherits_def
      inherited_prestates_def idle_conductor_def)

theorem add_lights_appends_witness:
  "participants (effects strip_running 0) = [strip] \<and> [strip] \<noteq> []
   \<and> add_lights calm strip_running 0 [strip, tile, bulb] = Inr tile_added
   \<and> filter (\<lambda>l. is_light_compatible calm 0 l
                   \<and> light_serial l \<notin> light_serial ` set [strip]) [strip, tile, bulb] = [tile]
   \<and> participants (effects tile_added 0) = [strip, tile]
   \<and> map_of (running tile_added) (light_serial tile)
       = Some \<lparr>effect = 0, prestate = warm_white, task = 0\<rparr>
   \<and> map_of (running tile_added) (light_serial strip)
       = map_of (running strip_running) (light_serial strip)
   \<and> length (animators (effects tile_added 0)) = 2"
proof -
  have h: "participants (effects strip_running 0) = [strip]" "[strip] \<noteq> []"
    "\<forall>light. runs strip_running 0 light = (light_serial light \<in> light_serial ` set [strip])"
    "\<forall>item \<in> set (running strip_running). effect (snd item) = 0 \<longrightarrow> task (snd item) = 0"
    by (simp_all add: strip_running_eval runs_def strip_def)
  have h': "add_lights calm strip_running 0 [strip, tile, bulb] = Inr tile_added"
    "[tile] = filter (\<lambda>l. is_light_compatible calm 0 l
                   \<and> light_serial l \<notin> light_serial ` set [strip]) [strip, tile, bulb]"
    by (simp_all add: tile_added_eval) (simp add: strip_def tile_def bulb_def calm_def)
  from add_lights_appends [OF h h'] h h' show ?thesis
    by (auto simp: strip_def tile_def bulb_def calm_def strip_running_eval)
qed

text \<open>\<^verbatim>\<open>start\<close> on a frame effect that is not running anywhere yet leaves the conductor
  in the state that the property above starts from, so that it applies to
  \<^verbatim>\<open>add_lights\<close> called after \<^verbatim>\<open>start\<close>.\<close>

lemma set_od_set: "set (od_set k v d) \<subseteq> insert (k, v) (set d)"
  by (induction d) auto

lemma register_items:
  "register e t pres lights run = Inr run' \<Longrightarrow> item \<in> set run' \<Longrightarrow>
   item \<in> set run \<or> (effect (snd item) = e \<and> task (snd item) = t)"
proof (induction lights arbitrary: run)
  case Nil
  then show ?case by simp
next
  case (Cons l lights)
  from Cons.prems(1) obtain pre where
    rest: "register e t pres lights
             (od_set (light_serial l) \<lparr>effect = e, prestate = pre, task = t\<rparr> run) = Inr run'"
    by (auto split: option.splits)
  from Cons.IH [OF rest Cons.prems(2)]
    set_od_set [of "light_serial l" "\<lparr>effect = e, prestate = pre, task = t\<rparr>" run]
  show ?case by auto
qed

lemma start_registers:
  assumes frame: "is_frame_effect (effects self e)"
    and fresh: "\<forall>item \<in> set (running self). effect (snd item) \<noteq> e"
    and st: "start env self e lights = Inr self1"
    and P: "P = filter_compatible_lights env e lights" "P \<noteq> []"
  shows "participants (effects self1 e) = P
       \<and> (\<forall>light. runs self1 e light = (light_serial light \<in> light_serial ` set P))
       \<and> (\<forall>item \<in> set (running self1). effect (snd item) = e
             \<longrightarrow> task (snd item) = length (tasks self))"
proof -
  from st P frame obtain pres anims run where
    an: "create_animators (effects self e) P = Inr anims"
    and reg: "register e (length (tasks self)) pres P (running self) = Inr run"
    and self1: "self1 = self\<lparr>effects := (effects self)
                                (e := (effects self e)\<lparr>participants := P, animators := anims\<rparr>),
                              tasks := tasks self @ [Pending], running := run\<rparr>"
    by (auto simp: start_def Let_def split: sum.splits)
  have unbound: "effect r \<noteq> e" if "map_of (running self) s = Some r" for s r
    using fresh map_of_SomeD [OF that] by auto
  have "runs self1 e light = (light_serial light \<in> light_serial ` set P)" for light
    using register_result [OF reg, of "light_serial light"] unbound
    by (auto simp: runs_def self1 split: option.splits)
  moreover have "task (snd item) = length (tasks self)"
    if "item \<in> set (running self1)" "effect (snd item) = e" for item
    using register_items [OF reg, of item] that fresh by (auto simp: self1)
  ultimately show ?thesis by (simp add: self1)
qed

corollary add_lights_after_start:
  assumes "is_frame_effect (effects self e)"
    and "\<forall>item \<in> set (running self). effect (snd item) \<noteq> e"
    and "start env self e lights = Inr self1"
    and "filter_compatible_lights env e lights \<noteq> []"
    and "add_lights env self1 e L = Inr self2"
  shows "participants (effects self2 e) =
           filter_compatible_lights env e lights
           @ filter (\<lambda>l. is_light_compatible env e l
                          \<and> light_serial l \<notin> light_serial ` set (filter_compatible_lights env e lights)) L"
  using start_registers [OF assms(1,2,3) refl assms(4)]
    add_lights_result [OF _ assms(4) _ _ assms(5) refl,
      of "length (tasks self)"]
  by blast

section \<open>Properties of the frame loop\<close>







section \<open>Properties of the frame generators\<close>

subsection \<open>Loops, ranges and variance\<close>












subsection \<open>Flame intensity\<close>





subsection \<open>Every generator returns one colour per pixel\<close>





















end
